theory Spec2Isabelle
  imports Main "HOL-Library.Char_ord" "HOL-Library.List_Lexorder" "HOL-Library.Multiset"
begin

section \<open>Strings\<close>

text \<open>
  A \<open>QString\<close> is modelled as the list of its code units, restricted to the 8-bit range;
  \<open>QString::fromStdString\<close> is the identity on such text. The order on strings is the
  lexicographic order on code units, as \<open>QString::operator<\<close> compares them.
\<close>

text \<open>\<open>QChar::isSpace\<close>: the characters \<open>QString::trimmed\<close> removes.\<close>

definition isSpace :: "char \<Rightarrow> bool" where
  "isSpace c =
     (c = CHR '' '' \<or> c = CHR 0x09 \<or> c = CHR 0x0A \<or> c = CHR 0x0B \<or> c = CHR 0x0C \<or>
      c = CHR 0x0D \<or> c = CHR 0x85 \<or> c = CHR 0xA0)"

definition startsWith :: "string \<Rightarrow> string \<Rightarrow> bool" where
  "startsWith s p = (take (length p) s = p)"

text \<open>\<open>QString::mid(pos)\<close>: everything from position \<open>pos\<close> on.\<close>

definition mid :: "string \<Rightarrow> nat \<Rightarrow> string" where
  "mid s pos = drop pos s"

text \<open>\<open>QString::mid(pos, n)\<close>: a negative \<open>n\<close> stands for the whole rest.\<close>

definition midn :: "string \<Rightarrow> nat \<Rightarrow> int \<Rightarrow> string" where
  "midn s pos n = (if n < 0 then drop pos s else take (nat n) (drop pos s))"

text \<open>\<open>QString::left(n)\<close>: the whole string when \<open>n\<close> is negative or not smaller than its size.\<close>

definition left :: "string \<Rightarrow> int \<Rightarrow> string" where
  "left s n = (if n < 0 \<or> int (length s) \<le> n then s else take (nat n) s)"

definition trimmed :: "string \<Rightarrow> string" where
  "trimmed s = rev (dropWhile isSpace (rev (dropWhile isSpace s)))"

text \<open>\<open>QString::indexOf\<close>: the first position where the pattern starts, or \<open>-1\<close>.\<close>

fun indexOf :: "string \<Rightarrow> string \<Rightarrow> int" where
  "indexOf [] p = (if p = [] then 0 else - 1)"
| "indexOf (c # cs) p =
     (if startsWith (c # cs) p then 0
      else (let r = indexOf cs p in if r = - 1 then - 1 else r + 1))"

text \<open>\<open>QStringList::join\<close>.\<close>

fun join :: "string \<Rightarrow> string list \<Rightarrow> string" where
  "join sep [] = []"
| "join sep [x] = x"
| "join sep (x # y # ys) = x @ sep @ join sep (y # ys)"

text \<open>
  \<open>s.replace(QRegularExpression("^ ", MultilineOption), "")\<close>: a global replacement; in
  multiline mode \<open>^\<close> matches at the start of the subject and right after every line feed.
  The flag says whether the current position is such a line start. After a removed space
  the position follows a space of the subject, so it is no line start.
\<close>

fun replaceLineStartSpace :: "bool \<Rightarrow> string \<Rightarrow> string" where
  "replaceLineStartSpace bol [] = []"
| "replaceLineStartSpace bol (c # cs) =
     (if bol \<and> c = CHR '' '' then replaceLineStartSpace False cs
      else c # replaceLineStartSpace (c = CHR 0x0A) cs)"

subsection \<open>\<open>QString::arg\<close>\<close>

text \<open>
  \<open>QString::arg\<close> replaces every occurrence of the place marker with the lowest number. A
  place marker is \<open>%\<close>, an optional \<open>L\<close> and one or two digits; \<open>placeMarker\<close> gives the number
  of the marker at the start of a text, whether it has the \<open>L\<close>, and its length. A text
  without a place marker is returned as it is.
\<close>

definition digitValue :: "char \<Rightarrow> nat option" where
  "digitValue c = (if CHR ''0'' \<le> c \<and> c \<le> CHR ''9'' then Some (of_char c - 48) else None)"

definition placeMarker :: "string \<Rightarrow> (nat \<times> bool \<times> nat) option" where
  "placeMarker s =
     (case s of
        [] \<Rightarrow> None
      | c # r \<Rightarrow>
          if c \<noteq> CHR ''%'' then None
          else (let localized = startsWith r ''L'';
                    digits = (if localized then drop 1 r else r);
                    len = (if localized then 2 else 1)
                in case digits of
                     [] \<Rightarrow> None
                   | d1 # r' \<Rightarrow>
                       (case digitValue d1 of
                          None \<Rightarrow> None
                        | Some a \<Rightarrow>
                            (case (case r' of [] \<Rightarrow> None | d2 # _ \<Rightarrow> digitValue d2) of
                               None \<Rightarrow> Some (a, localized, len + 1)
                             | Some b \<Rightarrow> Some (10 * a + b, localized, len + 2)))))"

text \<open>
  The numbers of the place markers of a text, from left to right. The first argument
  counts the characters of a marker just found that are still to be passed.
\<close>

fun findArgEscapes :: "nat \<Rightarrow> string \<Rightarrow> nat list" where
  "findArgEscapes skip [] = []"
| "findArgEscapes (Suc skip) (c # cs) = findArgEscapes skip cs"
| "findArgEscapes 0 (c # cs) =
     (case placeMarker (c # cs) of
        None \<Rightarrow> findArgEscapes 0 cs
      | Some (n, localized, len) \<Rightarrow> n # findArgEscapes (len - 1) cs)"

text \<open>
  The text with every marker of the given number replaced: by the second text when the
  marker has the \<open>L\<close>, by the first otherwise. Everything else is copied.
\<close>

fun replaceArgEscapes :: "nat \<Rightarrow> string \<Rightarrow> string \<Rightarrow> nat \<Rightarrow> string \<Rightarrow> string" where
  "replaceArgEscapes min_escape a larg skip [] = []"
| "replaceArgEscapes min_escape a larg (Suc skip) (c # cs) =
     replaceArgEscapes min_escape a larg skip cs"
| "replaceArgEscapes min_escape a larg 0 (c # cs) =
     (case placeMarker (c # cs) of
        None \<Rightarrow> c # replaceArgEscapes min_escape a larg 0 cs
      | Some (n, localized, len) \<Rightarrow>
          if n = min_escape
          then (if localized then larg else a) @ replaceArgEscapes min_escape a larg (len - 1) cs
          else c # replaceArgEscapes min_escape a larg 0 cs)"

definition argWith :: "string \<Rightarrow> string \<Rightarrow> string \<Rightarrow> string" where
  "argWith s a larg =
     (case findArgEscapes 0 s of
        [] \<Rightarrow> s
      | n # ns \<Rightarrow> replaceArgEscapes (fold min ns n) a larg 0 s)"

text \<open>\<open>QString::arg\<close> with a text: a marker with \<open>L\<close> gets the same text.\<close>

definition arg :: "string \<Rightarrow> string \<Rightarrow> string" where
  "arg s a = argWith s a a"

section \<open>CommentExtractor: \<open>descriptionOf\<close> for messages, enums, values and fields\<close>

text \<open>What \<open>GetSourceLocation\<close> supplies: the comment text without its opening delimiter.\<close>

record SourceLocation =
  leading_comments :: string
  trailing_comments :: string

text \<open>
  The result pairs the returned description with the out-parameter \<open>excluded\<close>; the first
  argument is \<open>generatorContext.noExclude\<close>.
\<close>

definition descriptionOf :: "bool \<Rightarrow> SourceLocation \<Rightarrow> string \<times> bool" where
  "descriptionOf noExclude sourceLocation =
     (let description = [];
          leading = leading_comments sourceLocation;
          description =
            (if startsWith leading ''*'' \<or> startsWith leading ''/''
             then description @ replaceLineStartSpace True (mid leading 1)
             else description);
          trailing = trailing_comments sourceLocation;
          description =
            (if startsWith trailing ''*'' \<or> startsWith trailing ''/''
             then description @ replaceLineStartSpace True (mid trailing 1)
             else description);
          description = trimmed description
      in if startsWith description ''@exclude''
         then (mid description 8, \<not> noExclude)
         else (description, False))"

subsection \<open>The extraction rule in the words of the specification\<close>

text \<open>A comment counts as documentation when its first character is \<open>*\<close> or \<open>/\<close>.\<close>

definition qualifies :: "string \<Rightarrow> bool" where
  "qualifies c = (case c of [] \<Rightarrow> False | x # _ \<Rightarrow> x = CHR ''*'' \<or> x = CHR ''/'')"

text \<open>The lines of a text: the pieces between its line feeds.\<close>

fun splitLines :: "string \<Rightarrow> string list" where
  "splitLines [] = [[]]"
| "splitLines (c # cs) =
     (if c = CHR 0x0A then [] # splitLines cs
      else (case splitLines cs of [] \<Rightarrow> [[c]] | l # ls \<Rightarrow> (c # l) # ls))"

definition stripOneSpace :: "string \<Rightarrow> string" where
  "stripOneSpace l = (case l of [] \<Rightarrow> [] | c # cs \<Rightarrow> if c = CHR '' '' then cs else l)"

text \<open>
  One marker character stripped, then at most one leading space stripped from every line;
  nothing for a comment that does not qualify.
\<close>

definition contribution :: "string \<Rightarrow> string" where
  "contribution c =
     (if qualifies c then join [CHR 0x0A] (map stripOneSpace (splitLines (tl c))) else [])"

section \<open>Document nodes\<close>

text \<open>
  The document tree is built from \<open>QVariant\<close> values. A \<open>QVariantHash\<close> is kept as the
  list of its entries in the order of their insertion; it is read by key only.
\<close>

datatype QVariant =
    Invalid
  | VBool bool
  | VInt int
  | VString string
  | VList "QVariant list"
  | VHash "(string \<times> QVariant) list"

text \<open>\<open>QVariant::toHash\<close>: the empty hash for a variant that holds none.\<close>

fun toHash :: "QVariant \<Rightarrow> (string \<times> QVariant) list" where
  "toHash (VHash h) = h"
| "toHash _ = []"

text \<open>\<open>hash[key]\<close> on a temporary hash: an invalid variant for a missing key.\<close>

definition hashValue :: "(string \<times> QVariant) list \<Rightarrow> string \<Rightarrow> QVariant" where
  "hashValue h key = (case map_of h key of None \<Rightarrow> Invalid | Some v \<Rightarrow> v)"

function decimal :: "nat \<Rightarrow> string" where
  "decimal n =
     (if n < 10 then [char_of (48 + n)] else decimal (n div 10) @ [char_of (48 + n mod 10)])"
  by pat_completeness auto
termination
  by (relation "measure id") auto

text \<open>\<open>QVariant::toString\<close>: empty for an invalid variant, a list and a hash.\<close>

fun toString :: "QVariant \<Rightarrow> string" where
  "toString (VString s) = s"
| "toString (VBool b) = (if b then ''true'' else ''false'')"
| "toString (VInt i) = (if i < 0 then ''-'' @ decimal (nat (- i)) else decimal (nat i))"
| "toString _ = []"

section \<open>Sorter\<close>

definition nameLessThan :: "QVariant \<Rightarrow> QVariant \<Rightarrow> bool" where
  "nameLessThan v1 v2 =
     (if toString (hashValue (toHash v1) ''field_name'')
           < toString (hashValue (toHash v2) ''field_name'')
      then True
      else toString (hashValue (toHash v1) ''value_name'')
             < toString (hashValue (toHash v2) ''value_name''))"

text \<open>
  \<open>std::sort\<close> belongs to the C++ library, so the walker takes the sorting function as a
  parameter. What the library promises for a comparator that is a strict weak ordering on
  the elements is \<open>stdSort\<close>: the result is a rearrangement of the input in which no
  element is less than an earlier one. The relative order of equivalent elements is left
  open.
\<close>

type_synonym sorter = "(QVariant \<Rightarrow> QVariant \<Rightarrow> bool) \<Rightarrow> QVariant list \<Rightarrow> QVariant list"



text \<open>
  A sorting function that keeps this promise: insertion sort, which puts each element
  behind the elements equivalent to it that came earlier.
\<close>

fun insertBehind :: "('a \<Rightarrow> 'a \<Rightarrow> bool) \<Rightarrow> 'a \<Rightarrow> 'a list \<Rightarrow> 'a list" where
  "insertBehind lt x [] = [x]"
| "insertBehind lt x (y # ys) = (if lt x y then x # y # ys else y # insertBehind lt x ys)"

definition insertionSort :: "('a \<Rightarrow> 'a \<Rightarrow> bool) \<Rightarrow> 'a list \<Rightarrow> 'a list" where
  "insertionSort lt xs = fold (insertBehind lt) xs []"

section \<open>Descriptors\<close>

datatype FieldType =
    TYPE_DOUBLE | TYPE_FLOAT | TYPE_INT64 | TYPE_UINT64 | TYPE_INT32 | TYPE_FIXED64
  | TYPE_FIXED32 | TYPE_BOOL | TYPE_STRING | TYPE_GROUP | TYPE_MESSAGE | TYPE_BYTES
  | TYPE_UINT32 | TYPE_ENUM | TYPE_SFIXED32 | TYPE_SFIXED64 | TYPE_SINT32 | TYPE_SINT64

datatype Label = LABEL_OPTIONAL | LABEL_REQUIRED | LABEL_REPEATED

text \<open>
  \<open>fld_message_type\<close> and \<open>fld_enum_type\<close> hold the \<open>name()\<close> of the descriptor that
  \<open>message_type()\<close> and \<open>enum_type()\<close> return for a field of that kind.
\<close>

record FieldDescriptor =
  fld_name :: string
  fld_type :: FieldType
  fld_label :: Label
  fld_message_type :: string
  fld_enum_type :: string
  fld_location :: SourceLocation

record EnumValueDescriptor =
  val_name :: string
  val_number :: int
  val_location :: SourceLocation

record EnumDescriptor =
  enum_name :: string
  enum_location :: SourceLocation
  enum_value :: "EnumValueDescriptor list"

datatype Descriptor =
  Descriptor (msg_name: string) (msg_location: SourceLocation)
    (msg_field: "FieldDescriptor list") (msg_nested_type: "Descriptor list")
    (msg_enum_type: "EnumDescriptor list")

record FileDescriptor =
  file_name :: string
  file_package :: string
  file_message_type :: "Descriptor list"
  file_enum_type :: "EnumDescriptor list"

section \<open>TypeRenderer\<close>

definition scalarTypeName :: "FieldType \<Rightarrow> string" where
  \<open>scalarTypeName type =
     (case type of
        TYPE_BOOL \<Rightarrow> ''<a href="/docs/types.php">bool</a>''
      | TYPE_BYTES \<Rightarrow> ''<a href="/docs/types.php">string</a>''
      | TYPE_STRING \<Rightarrow> ''<a href="/docs/types.php">string</a>''
      | TYPE_DOUBLE \<Rightarrow> ''<a href="/docs/types.php">float</a>''
      | TYPE_FLOAT \<Rightarrow> ''<a href="/docs/types.php">float</a>''
      | TYPE_FIXED32 \<Rightarrow> ''<a href="/docs/types.php">int</a>''
      | TYPE_FIXED64 \<Rightarrow> ''<a href="/docs/types.php">int</a>''
      | TYPE_INT32 \<Rightarrow> ''<a href="/docs/types.php">int</a>''
      | TYPE_INT64 \<Rightarrow> ''<a href="/docs/types.php">int</a>''
      | TYPE_SFIXED32 \<Rightarrow> ''<a href="/docs/types.php">int</a>''
      | TYPE_SFIXED64 \<Rightarrow> ''<a href="/docs/types.php">int</a>''
      | TYPE_SINT32 \<Rightarrow> ''<a href="/docs/types.php">int</a>''
      | TYPE_SINT64 \<Rightarrow> ''<a href="/docs/types.php">int</a>''
      | TYPE_UINT32 \<Rightarrow> ''<a href="/docs/types.php">int</a>''
      | TYPE_UINT64 \<Rightarrow> ''<a href="/docs/types.php">int</a>''
      | _ \<Rightarrow> ''<unknown>'')\<close>

definition typeUrl :: "string \<Rightarrow> string" where
  \<open>typeUrl type = ''<a href="/docs/dsl-types.php#'' @ type @ ''">'' @ type @ ''</a>''\<close>

text \<open>The type string of a field: the part of \<open>addField\<close> that computes \<open>fieldType\<close>.\<close>

definition fieldTypeOf :: "FieldDescriptor \<Rightarrow> string" where
  \<open>fieldTypeOf fieldDescriptor =
     (let type = fld_type fieldDescriptor;
          fieldType =
            (if type = TYPE_MESSAGE \<or> type = TYPE_GROUP
             then typeUrl (fld_message_type fieldDescriptor)
             else if type = TYPE_ENUM
             then typeUrl (fld_enum_type fieldDescriptor)
             else (let typeName = scalarTypeName type
                   in if indexOf (fld_name fieldDescriptor) ''date'' \<noteq> - 1
                      then ''<a href="/docs/types.php">time</a>''
                      else typeName))
      in if fld_label fieldDescriptor = LABEL_OPTIONAL then fieldType @ ''?''
         else if fld_label fieldDescriptor = LABEL_REPEATED
         then ''<a href="/docs/types.php">array</a> of '' @ fieldType
         else fieldType)\<close>

section \<open>DescriptorWalker\<close>

text \<open>The source's variables \<open>fields\<close> and \<open>enum_\<close> are written \<open>fields'\<close> and \<open>enum'\<close>.\<close>

definition addField :: "bool \<Rightarrow> FieldDescriptor \<Rightarrow> QVariant list \<Rightarrow> QVariant list" where
  "addField noExclude fieldDescriptor fields' =
     (case descriptionOf noExclude (fld_location fieldDescriptor) of
        (description, excluded) \<Rightarrow>
          if excluded then fields'
          else (let field =
                      VHash [(''field_name'', VString (fld_name fieldDescriptor)),
                             (''field_description'', VString description),
                             (''field_type'', VString (fieldTypeOf fieldDescriptor))]
                in fields' @ [field]))"

text \<open>The body of the loop over the values of an enum in \<open>addEnum\<close>.\<close>

definition addValue :: "bool \<Rightarrow> EnumValueDescriptor \<Rightarrow> QVariant list \<Rightarrow> QVariant list" where
  "addValue noExclude valueDescriptor values =
     (case descriptionOf noExclude (val_location valueDescriptor) of
        (description, excluded) \<Rightarrow>
          if excluded then values
          else (let value =
                      VHash [(''value_name'', VString (val_name valueDescriptor)),
                             (''value_number'', VInt (val_number valueDescriptor)),
                             (''value_description'', VString description)]
                in values @ [value]))"

definition addEnum :: "sorter \<Rightarrow> bool \<Rightarrow> EnumDescriptor \<Rightarrow> QVariant list \<Rightarrow> QVariant list" where
  "addEnum srt noExclude enumDescriptor enums =
     (case descriptionOf noExclude (enum_location enumDescriptor) of
        (description, excluded) \<Rightarrow>
          if excluded then enums
          else (let values = fold (addValue noExclude) (enum_value enumDescriptor) [];
                    values = srt nameLessThan values;
                    enum' =
                      VHash [(''enum_name'', VString (enum_name enumDescriptor)),
                             (''enum_description'', VString description),
                             (''enum_values'', VList values)]
                in enums @ [enum']))"

fun addMessages ::
  "sorter \<Rightarrow> bool \<Rightarrow> Descriptor \<Rightarrow> QVariant list \<times> QVariant list
     \<Rightarrow> QVariant list \<times> QVariant list" where
  "addMessages srt noExclude (Descriptor name location field nested_type enum_type)
     (messages, enums) =
     (case descriptionOf noExclude location of
        (description, excluded) \<Rightarrow>
          if excluded then (messages, enums)
          else (let fields' = fold (addField noExclude) field [];
                    fields' = srt nameLessThan fields';
                    message =
                      VHash [(''message_name'', VString name),
                             (''message_description'', VString description),
                             (''message_has_fields'', VBool (fields' \<noteq> [])),
                             (''message_fields'', VList fields')];
                    messages = messages @ [message];
                    (messages, enums) =
                      fold (addMessages srt noExclude) nested_type (messages, enums);
                    enums = fold (addEnum srt noExclude) enum_type enums
                in (messages, enums)))"

section \<open>The surroundings of a run\<close>

text \<open>
  What the generator reads from outside itself. \<open>openFile\<close> stands for opening a \<open>QFile\<close>
  for reading: the contents, or the \<open>errorString\<close> of the failure (resource paths such as
  \<open>:/templates/html.mustache\<close> included). \<open>templateEntries\<close> are the file names of the
  entries of \<open>:/templates\<close> that match \<open>*.mustache\<close>. \<open>toJson\<close> is \<open>QJsonDocument::fromVariant\<close>
  followed by \<open>toJson\<close>, with \<open>None\<close> for a null document. \<open>mustacheRender\<close> is the template
  engine, given the two filters, the template and the list of files; a filter receives the
  engine's rendering of sub-templates and its raw argument. \<open>localeNumber\<close> is the text of a
  number in the default locale, which \<open>QString::arg\<close> puts in place of a marker with \<open>L\<close>.
\<close>

record RenderResult =
  rendered :: string
  renderError :: string
  renderErrorPos :: int
  renderErrorPartial :: string

type_synonym filterFn = "(string \<Rightarrow> string) \<Rightarrow> string \<Rightarrow> string"

record Env =
  openFile :: "string \<Rightarrow> string + string"
  templateEntries :: "string list"
  toJson :: "QVariant list \<Rightarrow> string option"
  mustacheRender :: "filterFn \<Rightarrow> filterFn \<Rightarrow> string \<Rightarrow> QVariant list \<Rightarrow> RenderResult"
  localeNumber :: "int \<Rightarrow> string"

text \<open>\<open>QString("%1: %2").arg(fileName).arg(file.errorString())\<close>.\<close>

definition fileError :: "string \<Rightarrow> string \<Rightarrow> string" where
  "fileError fileName errorString = arg (arg ''%1: %2'' fileName) errorString"

section \<open>FileHeaderExtractor\<close>

text \<open>
  A \<open>QTextStream\<close> over the opened file is kept as the list of the lines it has yet to
  deliver. \<open>readLine\<close> delivers the text up to the next line feed; the caller trims every
  line, so a carriage return in front of the line feed needs no treatment of its own. At
  the end of the stream \<open>readLine\<close> delivers an empty string.
\<close>

fun textLines :: "string \<Rightarrow> string list" where
  "textLines [] = []"
| "textLines (c # cs) =
     (if c = CHR 0x0A then [] # textLines cs
      else (case textLines cs of [] \<Rightarrow> [[c]] | l # ls \<Rightarrow> (c # l) # ls))"

definition atEnd :: "string list \<Rightarrow> bool" where
  "atEnd stream = (stream = [])"

definition readLine :: "string list \<Rightarrow> string \<times> string list" where
  "readLine stream = (case stream of [] \<Rightarrow> ([], []) | l # ls \<Rightarrow> (l, ls))"

text \<open>The loop over the lines that start with \<open>///\<close>; its result is the description.\<close>

fun slashLoop :: "string \<Rightarrow> string list \<Rightarrow> string \<Rightarrow> string" where
  "slashLoop line [] description = description"
| "slashLoop line (next # stream) description =
     (if startsWith line ''///''
      then slashLoop (trimmed next) stream
             (description @ mid line (if startsWith line ''/// '' then 4 else 3) @ [CHR 0x0A])
      else description)"

text \<open>
  The loop that looks for the end of a block comment does not ask for the end of the
  stream, so it need not return. Its result is the line that holds \<open>*/\<close> and the
  description so far.
\<close>

partial_function (option) blockLoop :: "string \<Rightarrow> string list \<Rightarrow> string \<Rightarrow> (string \<times> string) option"
  where
  "blockLoop line stream description =
     (if indexOf line ''*/'' = - 1
      then blockLoop (trimmed (fst (readLine stream))) (snd (readLine stream))
             (description @
              mid line ((if startsWith line ''*'' then 1 else 0) +
                        (if startsWith line ''* '' then 1 else 0)) @ [CHR 0x0A])
      else Some (line, description))"

declare blockLoop.simps [code]

text \<open>The outer loop of the file-level \<open>descriptionOf\<close>: the description before trimming.\<close>

fun headerScan :: "string list \<Rightarrow> string option" where
  "headerScan [] = Some []"
| "headerScan (l # stream) =
     (let line = trimmed l
      in if line = [] then headerScan stream
         else if startsWith line ''///''
         then (let description = slashLoop line stream []
               in Some (left description (int (length description) - 1)))
         else if startsWith line ''/**'' \<and> \<not> startsWith line ''/***/''
         then (case blockLoop (mid line 2) stream [] of
                 None \<Rightarrow> None
               | Some (line, description) \<Rightarrow>
                   (let end = indexOf line ''*/'';
                        start = (if startsWith line ''*'' \<and> \<not> startsWith line ''*/'' then 1 else 0) +
                                (if startsWith line ''* '' then 1 else 0)
                    in Some (description @ midn line start (end - int start))))
         else Some [])"

text \<open>
  The file-level \<open>descriptionOf\<close>. It takes the current values of \<open>*error\<close> and \<open>excluded\<close> and
  gives the description with their new values; \<open>None\<close> when it does not return.
\<close>

definition descriptionOfFile ::
  "Env \<Rightarrow> bool \<Rightarrow> FileDescriptor \<Rightarrow> string \<times> bool \<Rightarrow> (string \<times> string \<times> bool) option" where
  "descriptionOfFile env noExclude fileDescriptor state =
     (case state of (error, excluded) \<Rightarrow>
        (let fileName = file_name fileDescriptor
         in case openFile env fileName of
              Inl errorString \<Rightarrow> Some ([], fileError fileName errorString, excluded)
            | Inr contents \<Rightarrow>
                (case headerScan (textLines contents) of
                   None \<Rightarrow> None
                 | Some description \<Rightarrow>
                     (let description = trimmed description
                      in if startsWith description ''@exclude''
                         then Some (mid description 8, error, \<not> noExclude)
                         else Some (description, error, False)))))"

section \<open>DocumentAssembler\<close>

text \<open>\<open>QFileInfo::fileName\<close>: the part of a path behind its last slash.\<close>

definition fileName :: "string \<Rightarrow> string" where
  "fileName path = rev (takeWhile (\<lambda>c. c \<noteq> CHR ''/'') (rev path))"

definition addFile ::
  "sorter \<Rightarrow> Env \<Rightarrow> bool \<Rightarrow> FileDescriptor \<Rightarrow> QVariant list \<times> string
     \<Rightarrow> (QVariant list \<times> string) option" where
  "addFile srt env noExclude fileDescriptor state =
     (case state of (files, error) \<Rightarrow>
        (case descriptionOfFile env noExclude fileDescriptor (error, False) of
           None \<Rightarrow> None
         | Some (description, error, excluded) \<Rightarrow>
             if excluded then Some (files, error)
             else (let file = [(''file_name'', VString (fileName (file_name fileDescriptor))),
                               (''file_description'', VString description),
                               (''file_package'', VString (file_package fileDescriptor))];
                       (messages, enums) =
                         fold (addMessages srt noExclude) (file_message_type fileDescriptor) ([], []);
                       file = file @ [(''file_messages'', VList messages)];
                       enums = fold (addEnum srt noExclude) (file_enum_type fileDescriptor) enums;
                       file = file @ [(''file_enums'', VList enums)]
                   in Some (files @ [VHash file], error))))"

section \<open>Run configuration\<close>

record DocGeneratorContext =
  ctx_template :: string
  ctx_outputFileName :: string
  ctx_noExclude :: bool
  ctx_files :: "QVariant list"

text \<open>\<open>QFileInfo::baseName\<close> of a file name: the part in front of its first dot.\<close>

definition baseName :: "string \<Rightarrow> string" where
  "baseName name = takeWhile (\<lambda>c. c \<noteq> CHR ''.'') name"

definition supportedFormats :: "Env \<Rightarrow> string list" where
  "supportedFormats env = map baseName (templateEntries env)"

definition usage :: "Env \<Rightarrow> string" where
  "usage env =
     ''Usage: --doc_out='' @ join ''|'' (supportedFormats env) @
     ''|<TEMPLATE_FILENAME>,<OUT_FILENAME>[,no-exclude]:<OUT_DIR>''"

definition readTemplate :: "Env \<Rightarrow> string \<Rightarrow> string \<Rightarrow> string \<times> string" where
  "readTemplate env name error =
     (let builtInFileName = '':/templates/'' @ name @ ''.mustache'';
          fileName = (if name \<in> set (supportedFormats env) then builtInFileName else name)
      in case openFile env fileName of
           Inl errorString \<Rightarrow> ([], fileError fileName errorString)
         | Inr contents \<Rightarrow> (contents, error))"

text \<open>\<open>QString::split\<close> at a character, keeping empty parts.\<close>

fun splitAt :: "char \<Rightarrow> string \<Rightarrow> string list" where
  "splitAt sep [] = [[]]"
| "splitAt sep (c # cs) =
     (if c = sep then [] # splitAt sep cs
      else (case splitAt sep cs of [] \<Rightarrow> [[c]] | l # ls \<Rightarrow> (c # l) # ls))"

definition parseParameter ::
  "Env \<Rightarrow> DocGeneratorContext \<Rightarrow> string \<Rightarrow> string \<Rightarrow> bool \<times> DocGeneratorContext \<times> string" where
  "parseParameter env generatorContext parameter error =
     (let tokens = splitAt CHR '','' parameter
      in if length tokens \<noteq> 2 \<and> length tokens \<noteq> 3
         then (False, generatorContext, usage env)
         else if length tokens = 3 \<and> tokens ! 2 \<noteq> ''no-exclude''
         then (False, generatorContext, usage env)
         else (let noExclude = (length tokens = 3);
                   (template, error) =
                     (if tokens ! 0 \<noteq> ''json'' then readTemplate env (tokens ! 0) error
                      else (ctx_template generatorContext, error))
               in (True,
                   generatorContext
                     \<lparr>ctx_template := template, ctx_outputFileName := tokens ! 1,
                      ctx_noExclude := noExclude\<rparr>,
                   error)))"

section \<open>Renderer\<close>

text \<open>
  The pattern of \<open>pFilter\<close> is \<open>(\n|\r|\r\n)\s*(\n|\r|\r\n)\<close>. The functions below give the
  length of its match at the start of a text, trying the alternatives in their order and
  the longest run of \<open>\s\<close> first, as the backtracking matcher does. \<open>\s\<close> is the white space
  of ASCII.
\<close>

definition isReSpace :: "char \<Rightarrow> bool" where
  "isReSpace c =
     (c = CHR '' '' \<or> c = CHR 0x09 \<or> c = CHR 0x0A \<or> c = CHR 0x0B \<or> c = CHR 0x0C \<or> c = CHR 0x0D)"

definition matchBreak :: "string \<Rightarrow> nat option" where
  "matchBreak s =
     (if startsWith s [CHR 0x0A] then Some 1
      else if startsWith s [CHR 0x0D] then Some 1
      else if startsWith s [CHR 0x0D, CHR 0x0A] then Some 2
      else None)"

fun matchSpacesBreak :: "string \<Rightarrow> nat option" where
  "matchSpacesBreak [] = None"
| "matchSpacesBreak (c # cs) =
     (case (if isReSpace c then matchSpacesBreak cs else None) of
        Some n \<Rightarrow> Some (Suc n)
      | None \<Rightarrow> matchBreak (c # cs))"

definition matchSeparator :: "string \<Rightarrow> nat option" where
  "matchSeparator s =
     (case (if startsWith s [CHR 0x0A] then matchSpacesBreak (drop 1 s) else None) of
        Some n \<Rightarrow> Some (1 + n)
      | None \<Rightarrow>
     (case (if startsWith s [CHR 0x0D] then matchSpacesBreak (drop 1 s) else None) of
        Some n \<Rightarrow> Some (1 + n)
      | None \<Rightarrow>
     (case (if startsWith s [CHR 0x0D, CHR 0x0A] then matchSpacesBreak (drop 2 s) else None) of
        Some n \<Rightarrow> Some (2 + n)
      | None \<Rightarrow> None)))"

lemma matchSeparator_positive: "matchSeparator s = Some n \<Longrightarrow> 0 < n"
  by (auto simp: matchSeparator_def split: option.splits if_splits)

text \<open>
  \<open>QString::split\<close> with the pattern: the pieces between the matches, found from left to
  right. The first argument collects the piece in progress.
\<close>

function splitRe :: "string \<Rightarrow> string \<Rightarrow> string list" where
  "splitRe piece [] = [piece]"
| "splitRe piece (c # cs) =
     (case matchSeparator (c # cs) of
        Some n \<Rightarrow> piece # splitRe [] (drop n (c # cs))
      | None \<Rightarrow> splitRe (piece @ [c]) cs)"
  by pat_completeness auto
termination
  by (relation "measure (\<lambda>(piece, s). length s)") (auto dest: matchSeparator_positive)

definition pFilter :: filterFn where
  "pFilter render text = ''<p>'' @ join ''</p><p>'' (splitRe [] (render text)) @ ''</p>''"

text \<open>\<open>QString::remove\<close> of every occurrence of a text, found from left to right.\<close>

fun remove :: "string \<Rightarrow> string \<Rightarrow> string" where
  "remove pat [] = []"
| "remove pat (c # cs) =
     (if pat \<noteq> [] \<and> startsWith (c # cs) pat then remove pat (drop (length pat) (c # cs))
      else c # remove pat cs)"

definition nobrFilter :: filterFn where
  "nobrFilter render text =
     remove [CHR 0x0A] (remove [CHR 0x0D] (remove [CHR 0x0D, CHR 0x0A] (render text)))"

definition showInt :: "int \<Rightarrow> string" where
  "showInt i = (if i < 0 then ''-'' @ decimal (nat (- i)) else decimal (nat i))"

text \<open>\<open>QString::arg\<close> with a number.\<close>

definition argNumber :: "Env \<Rightarrow> string \<Rightarrow> int \<Rightarrow> string" where
  "argNumber env s i = argWith s (showInt i) (localeNumber env i)"

definition formattedError :: "Env \<Rightarrow> string \<Rightarrow> RenderResult \<Rightarrow> string" where
  "formattedError env template renderer =
     (let location =
            (if renderErrorPartial renderer \<noteq> []
             then template @ '' in partial '' @ renderErrorPartial renderer
             else template)
      in arg (argNumber env (arg ''%1:%2: %3'' location) (renderErrorPos renderer))
           (renderError renderer))"

text \<open>
  The output sink of the host is kept as the list of the writes made to it: the name
  given to \<open>Open\<close> and the text given to \<open>PrintRaw\<close>.
\<close>

type_synonym sink = "(string \<times> string) list"

definition render :: "Env \<Rightarrow> DocGeneratorContext \<Rightarrow> sink \<times> string \<Rightarrow> bool \<times> sink \<times> string" where
  "render env generatorContext state =
     (case state of (context, error) \<Rightarrow>
        if ctx_template generatorContext = []
        then (case toJson env (ctx_files generatorContext) of
                None \<Rightarrow> (False, context, ''Failed to create JSON document'')
              | Some result \<Rightarrow>
                  (True, context @ [(ctx_outputFileName generatorContext, result)], error))
        else (let renderer =
                    mustacheRender env pFilter nobrFilter (ctx_template generatorContext)
                      (ctx_files generatorContext)
              in if renderError renderer \<noteq> []
                 then (False, context, formattedError env (ctx_template generatorContext) renderer)
                 else (True,
                       context @ [(ctx_outputFileName generatorContext, rendered renderer)],
                       error)))"

section \<open>The generator and its host\<close>




text \<open>The static \<open>generatorContext\<close> before the first call.\<close>

definition initialContext :: DocGeneratorContext where
  "initialContext =
     \<lparr>ctx_template = [], ctx_outputFileName = [], ctx_noExclude = False, ctx_files = []\<rparr>"


section \<open>Notions for stating the walker's properties\<close>







section \<open>Sample descriptors\<close>




text \<open>
  Surroundings with the given files, two built-in templates, a JSON writer that always
  succeeds and an engine that gives the template back.
\<close>

definition sampleFiles :: "(string \<times> string) list \<Rightarrow> string \<Rightarrow> string + string" where
  "sampleFiles contents name =
     (case map_of contents name of
        None \<Rightarrow> Inl ''No such file or directory''
      | Some text \<Rightarrow> Inr text)"

definition sampleEnv :: "(string \<times> string) list \<Rightarrow> Env" where
  "sampleEnv contents =
     \<lparr>openFile = sampleFiles contents,
      templateEntries = [''docbook.mustache'', ''html.mustache''],
      toJson = (\<lambda>files. Some ''[]''),
      mustacheRender =
        (\<lambda>p nobr template files.
           \<lparr>rendered = template, renderError = [], renderErrorPos = 0,
            renderErrorPartial = []\<rparr>),
      localeNumber = showInt\<rparr>"

text \<open>The descriptor of a file without declarations.\<close>

definition sampleFile :: "string \<Rightarrow> FileDescriptor" where
  "sampleFile name =
     \<lparr>file_name = name, file_package = ''demo'', file_message_type = [], file_enum_type = []\<rparr>"

section \<open>Notions for stating the other properties\<close>

text \<open>A line of a header without its \<open>///\<close> and one following space.\<close>

definition stripLineMarker :: "string \<Rightarrow> string" where
  "stripLineMarker line = drop (if startsWith line ''/// '' then 4 else 3) line"

text \<open>
  The notions of the paragraph filter in the words of the specification. A blank-line
  boundary is white space that starts and ends with a line break and holds at least two
  line breaks, a carriage return with its line feed counting as one. A text starts a line
  when a character that is no white space comes first in it, after blanks at most. In a
  paragraph every line break is followed by such a text, and the paragraph is one itself.
\<close>

definition isBreakChar :: "char \<Rightarrow> bool" where
  "isBreakChar c = (c = CHR 0x0A \<or> c = CHR 0x0D)"

fun lineBreaks :: "string \<Rightarrow> nat" where
  "lineBreaks [] = 0"
| "lineBreaks [c] = (if isBreakChar c then 1 else 0)"
| "lineBreaks (c # d # cs) =
     (if c = CHR 0x0D \<and> d = CHR 0x0A then Suc (lineBreaks cs)
      else if isBreakChar c then Suc (lineBreaks (d # cs))
      else lineBreaks (d # cs))"

definition isBoundary :: "string \<Rightarrow> bool" where
  "isBoundary sep =
     (sep \<noteq> [] \<and> isBreakChar (hd sep) \<and> isBreakChar (last sep) \<and> list_all isReSpace sep \<and>
      2 \<le> lineBreaks sep)"

definition startsLine :: "string \<Rightarrow> bool" where
  "startsLine s =
     (case dropWhile (\<lambda>c. isReSpace c \<and> \<not> isBreakChar c) s of
        [] \<Rightarrow> False
      | x # _ \<Rightarrow> \<not> isReSpace x)"

fun plainBreaks :: "string \<Rightarrow> bool" where
  "plainBreaks [] = True"
| "plainBreaks (c # cs) = ((if isBreakChar c then startsLine cs else True) \<and> plainBreaks cs)"

definition isParagraph :: "string \<Rightarrow> bool" where
  "isParagraph seg = (startsLine seg \<and> plainBreaks seg)"

text \<open>The characters that a place marker of \<open>QString::arg\<close> can hold.\<close>

definition isMarkerChar :: "char \<Rightarrow> bool" where
  "isMarkerChar c = (c = CHR ''%'' \<or> c = CHR ''L'' \<or> digitValue c \<noteq> None)"


section \<open>Properties of the comment extractor\<close>

lemma stripOneSpace_simps:
  "stripOneSpace [] = []"
  "stripOneSpace (c # cs) = (if c = CHR '' '' then cs else c # cs)"
  by (simp_all add: stripOneSpace_def)

lemma splitLines_nonempty: "splitLines s \<noteq> []"
  by (induction s) (auto split: list.splits)

lemma replaceLineStartSpace_lines:
  "replaceLineStartSpace True s = join [CHR 0x0A] (map stripOneSpace (splitLines s))"
  "replaceLineStartSpace False s =
     (case splitLines s of [] \<Rightarrow> [] | l # ls \<Rightarrow> join [CHR 0x0A] (l # map stripOneSpace ls))"
proof (induction s)
  case Nil
  {
    case 1 show ?case by (simp add: stripOneSpace_simps)
  next
    case 2 show ?case by simp
  }
next
  case (Cons c cs)
  obtain l ls where split: "splitLines cs = l # ls"
    using splitLines_nonempty [of cs] by (cases "splitLines cs") auto
  {
    case 1
    show ?case
    proof (cases "c = CHR 0x0A")
      case True
      then show ?thesis
        using Cons.IH(1) split by (simp add: stripOneSpace_simps)
    next
      case False
      then show ?thesis
        using Cons.IH(2) split by (cases ls) (auto simp: stripOneSpace_simps)
    qed
  next
    case 2
    show ?case
    proof (cases "c = CHR 0x0A")
      case True
      then show ?thesis
        using Cons.IH(1) split by simp
    next
      case False
      then show ?thesis
        using Cons.IH(2) split by (cases ls) auto
    qed
  }
qed

lemma docComment_contribution:
  "(if startsWith c ''*'' \<or> startsWith c ''/'' then replaceLineStartSpace True (mid c 1) else [])
     = contribution c"
  by (cases c)
    (auto simp: contribution_def qualifies_def startsWith_def mid_def replaceLineStartSpace_lines(1))

text \<open>
  C4: a leading or trailing comment contributes only when it starts with \<open>*\<close> or \<open>/\<close>;
  then one marker character and at most one leading space per line are stripped. The
  leading contribution is followed directly by the trailing one, and the concatenation is
  trimmed: it is this trimmed text that the exclusion check of \<open>descriptionOf\<close> reads.
\<close>

theorem descriptionOf_extraction:
  "descriptionOf noExclude loc =
     (let t = trimmed (contribution (leading_comments loc) @ contribution (trailing_comments loc))
      in if startsWith t ''@exclude'' then (drop 8 t, \<not> noExclude) else (t, False))"
proof -
  have "descriptionOf noExclude loc =
     (let t = trimmed
         ((if startsWith (leading_comments loc) ''*'' \<or> startsWith (leading_comments loc) ''/''
           then replaceLineStartSpace True (mid (leading_comments loc) 1) else []) @
          (if startsWith (trailing_comments loc) ''*'' \<or> startsWith (trailing_comments loc) ''/''
           then replaceLineStartSpace True (mid (trailing_comments loc) 1) else []))
      in if startsWith t ''@exclude'' then (drop 8 t, \<not> noExclude) else (t, False))"
    by (simp add: descriptionOf_def Let_def mid_def)
  then show ?thesis
    by (simp only: docComment_contribution)
qed

theorem descriptionOf_extraction_witness:
  "descriptionOf False
     \<lparr>leading_comments = ''* First line\<newline>  second line\<newline>'', trailing_comments = ''/ tail ''\<rparr>
   = (''First line\<newline> second line\<newline>tail'', False)"
  using descriptionOf_extraction
    [of False "\<lparr>leading_comments = ''* First line\<newline>  second line\<newline>'', trailing_comments = ''/ tail ''\<rparr>"]
  by (simp add: contribution_def qualifies_def stripOneSpace_simps trimmed_def isSpace_def
      startsWith_def)

text \<open>With the directives ignored nothing is excluded.\<close>

lemma excluded_only_when_honored: "snd (descriptionOf True loc) = False"
  by (simp add: descriptionOf_def Let_def)

text \<open>
  C3, at the comment of the specification's example with the directives ignored: the
  description keeps the space that followed \<open>@exclude\<close>.
\<close>

theorem descriptionOf_exclude_keeps_space:
  "descriptionOf True \<lparr>leading_comments = ''* @exclude Deprecated field '', trailing_comments = ''''\<rparr>
   = ('' Deprecated field'', False)"
  by (simp add: descriptionOf_def mid_def trimmed_def isSpace_def startsWith_def)

section \<open>Properties of the sorter\<close>





















section \<open>Properties of the walker\<close>






section \<open>Properties of the type renderer\<close>







section \<open>Sorted children and exclusion\<close>












section \<open>Properties of the run configuration\<close>

lemma splitAt_nonempty: "splitAt c s \<noteq> []"
  by (induction s) (auto split: list.splits)

lemma length_splitAt: "length (splitAt c s) = Suc (count_list s c)"
  by (induction s) (auto split: list.splits simp: splitAt_nonempty)

lemma splitAt_append_sep:
  "c \<notin> set ys \<Longrightarrow> splitAt c (xs @ c # ys) = splitAt c xs @ [ys]"
proof (induction xs)
  case Nil
  have "splitAt c ys = [ys]" using Nil
  proof (induction ys)
    case Nil
    then show ?case by simp
  next
    case (Cons y ys)
    then show ?case by auto
  qed
  then show ?case by simp
next
  case (Cons x xs)
  then show ?case
    by (cases "splitAt c xs") (auto simp: splitAt_nonempty)
qed

lemma join_splitAt: "join [c] (splitAt c s) = s"
proof (induction s)
  case Nil
  then show ?case by simp
next
  case (Cons x xs)
  obtain l ls where split: "splitAt c xs = l # ls"
    using splitAt_nonempty [of c xs] by (cases "splitAt c xs") auto
  show ?case
  proof (cases "x = c")
    case True
    then show ?thesis using Cons split by simp
  next
    case False
    then show ?thesis using Cons split by (cases ls) auto
  qed
qed

lemma third_token_no_exclude:
  assumes "length (splitAt CHR '','' s) = 3"
  shows "splitAt CHR '','' s ! 2 = ''no-exclude'' \<longleftrightarrow> (\<exists>front. s = front @ '',no-exclude'')"
proof
  assume t: "splitAt CHR '','' s ! 2 = ''no-exclude''"
  obtain a b c where abc: "splitAt CHR '','' s = [a, b, c]"
    using assms by (auto simp: length_Suc_conv numeral_3_eq_3)
  then have "c = ''no-exclude''" using t by simp
  moreover have "s = join '','' [a, b, c]"
    using join_splitAt [of "CHR '',''" s] abc by simp
  ultimately have "s = (a @ '','' @ b) @ '',no-exclude''" by simp
  then show "\<exists>front. s = front @ '',no-exclude''" by blast
next
  assume "\<exists>front. s = front @ '',no-exclude''"
  then obtain front where s: "s = front @ CHR '','' # ''no-exclude''" by auto
  have "splitAt CHR '','' s = splitAt CHR '','' front @ [''no-exclude'']"
    unfolding s by (rule splitAt_append_sep) simp
  moreover from this have "length (splitAt CHR '','' front) = 2"
    using assms by simp
  ultimately show "splitAt CHR '','' s ! 2 = ''no-exclude''"
    by (simp add: nth_append)
qed

text \<open>
  C9: parsing succeeds exactly for a parameter of two tokens, or of three tokens whose third
  is \<open>no-exclude\<close>. Every other parameter leaves the context as it was and gives the
  usage message, which lists the built-in format names.
\<close>

theorem parseParameter_accepts:
  assumes "parseParameter env generatorContext parameter error = (ok, generatorContext', error')"
  shows
    "(ok \<longleftrightarrow>
        count_list parameter CHR '','' = 1 \<or>
        count_list parameter CHR '','' = 2 \<and> (\<exists>front. parameter = front @ '',no-exclude'')) \<and>
     (\<not> ok \<longrightarrow>
        generatorContext' = generatorContext \<and>
        error' = ''Usage: --doc_out='' @ join ''|'' (map baseName (templateEntries env)) @
                 ''|<TEMPLATE_FILENAME>,<OUT_FILENAME>[,no-exclude]:<OUT_DIR>'') \<and>
     (ok \<longrightarrow>
        ctx_noExclude generatorContext' = (count_list parameter CHR '','' = 2) \<and>
        ctx_outputFileName generatorContext' = splitAt CHR '','' parameter ! 1 \<and>
        ctx_files generatorContext' = ctx_files generatorContext)"
proof -
  let ?tokens = "splitAt CHR '','' parameter"
  have len: "length ?tokens = Suc (count_list parameter CHR '','')"
    by (rule length_splitAt)
  consider (bad) "length ?tokens \<noteq> 2" "length ?tokens \<noteq> 3"
    | (two) "length ?tokens = 2"
    | (three) "length ?tokens = 3"
    by blast
  then show ?thesis
  proof cases
    case bad
    then have "parseParameter env generatorContext parameter error =
        (False, generatorContext, usage env)"
      by (simp add: parseParameter_def)
    then show ?thesis
      using assms bad len by (auto simp: usage_def supportedFormats_def)
  next
    case two
    then have ok using assms
      by (auto simp: parseParameter_def Let_def split: prod.splits if_splits)
    moreover have "ctx_noExclude generatorContext' = False"
      "ctx_outputFileName generatorContext' = ?tokens ! 1"
      "ctx_files generatorContext' = ctx_files generatorContext"
      using assms two
      by (auto simp: parseParameter_def Let_def split: prod.splits if_splits)
    ultimately show ?thesis using two len by simp
  next
    case three
    note third = third_token_no_exclude [OF three]
    show ?thesis
    proof (cases "?tokens ! 2 = ''no-exclude''")
      case True
      then have ok using assms three
        by (auto simp: parseParameter_def Let_def split: prod.splits if_splits)
      moreover have "ctx_noExclude generatorContext' = True"
        "ctx_outputFileName generatorContext' = ?tokens ! 1"
        "ctx_files generatorContext' = ctx_files generatorContext"
        using assms three True
        by (auto simp: parseParameter_def Let_def split: prod.splits if_splits)
      ultimately show ?thesis using three len True third by simp
    next
      case False
      then have "parseParameter env generatorContext parameter error =
          (False, generatorContext, usage env)"
        using three by (simp add: parseParameter_def)
      then show ?thesis
        using assms three len False third by (auto simp: usage_def supportedFormats_def)
    qed
  qed
qed

theorem parseParameter_accepts_witness:
  "parseParameter (sampleEnv []) initialContext ''html,out.html,verbose'' [] =
     (False, initialContext,
      ''Usage: --doc_out=docbook|html|<TEMPLATE_FILENAME>,<OUT_FILENAME>[,no-exclude]:<OUT_DIR>'') \<and>
   parseParameter (sampleEnv []) initialContext ''json,out.json,no-exclude'' [] =
     (True,
      \<lparr>ctx_template = [], ctx_outputFileName = ''out.json'', ctx_noExclude = True,
       ctx_files = []\<rparr>, [])"
  using parseParameter_accepts [of "sampleEnv []" initialContext "''html,out.html,verbose''" "[]"
      False initialContext
      "''Usage: --doc_out=docbook|html|<TEMPLATE_FILENAME>,<OUT_FILENAME>[,no-exclude]:<OUT_DIR>''"]
  by (simp add: parseParameter_def usage_def supportedFormats_def baseName_def sampleEnv_def
      initialContext_def)

section \<open>Properties of the document assembler\<close>

lemma fileName_no_slash: "CHR ''/'' \<notin> set (fileName path)"
  unfolding fileName_def using set_takeWhileD by fastforce

lemma fileName_suffix:
  "\<exists>dir. path = dir @ fileName path \<and> (dir = [] \<or> last dir = CHR ''/'')"
proof -
  let ?P = "\<lambda>c. c \<noteq> CHR ''/''"
  let ?dir = "rev (dropWhile ?P (rev path))"
  have a: "rev (takeWhile ?P (rev path) @ dropWhile ?P (rev path)) = path" by simp
  have b: "rev (takeWhile ?P (rev path) @ dropWhile ?P (rev path)) = ?dir @ fileName path"
    by (simp only: rev_append fileName_def)
  have split: "path = ?dir @ fileName path"
    using a b by (rule trans [OF sym])
  have "?dir = [] \<or> last ?dir = CHR ''/''"
  proof (cases "dropWhile ?P (rev path)")
    case Nil
    then show ?thesis by simp
  next
    case (Cons y ys)
    then have "\<not> ?P y" by (simp add: dropWhile_eq_Cons_conv)
    then show ?thesis using Cons by simp
  qed
  with split show ?thesis by (rule_tac x = ?dir in exI) simp
qed

text \<open>
  C10: for a file that is not excluded, \<open>addFile\<close> appends an entry whose name is the part
  of the file's path behind its last slash; the package is the descriptor's and the
  description the one extracted from the file.
\<close>

theorem addFile_stores_base_name:
  assumes "descriptionOfFile env noExcl fileDescriptor (error, False) = Some (description, error', False)"
  shows
    "addFile srt env noExcl fileDescriptor (files, error) =
       Some (files @
         [VHash [(''file_name'', VString (fileName (file_name fileDescriptor))),
                 (''file_description'', VString description),
                 (''file_package'', VString (file_package fileDescriptor)),
                 (''file_messages'', VList
                    (fst (fold (addMessages srt noExcl) (file_message_type fileDescriptor) ([], [])))),
                 (''file_enums'', VList
                    (fold (addEnum srt noExcl) (file_enum_type fileDescriptor)
                       (snd (fold (addMessages srt noExcl) (file_message_type fileDescriptor)
                          ([], [])))))]],
         error') \<and>
     CHR ''/'' \<notin> set (fileName (file_name fileDescriptor)) \<and>
     (\<exists>dir. file_name fileDescriptor = dir @ fileName (file_name fileDescriptor) \<and>
            (dir = [] \<or> last dir = CHR ''/''))"
proof (intro conjI)
  show "CHR ''/'' \<notin> set (fileName (file_name fileDescriptor))"
    by (rule fileName_no_slash)
  show "\<exists>dir. file_name fileDescriptor = dir @ fileName (file_name fileDescriptor) \<and>
            (dir = [] \<or> last dir = CHR ''/'')"
    by (rule fileName_suffix)
qed (simp add: addFile_def assms Let_def split: prod.splits)

theorem addFile_stores_base_name_witness:
  "addFile insertionSort
      (sampleEnv [(''proto/api/shapes.proto'', ''/// Shapes.\<newline>package shapes;\<newline>'')]) False
      \<lparr>file_name = ''proto/api/shapes.proto'', file_package = ''shapes'',
       file_message_type = [], file_enum_type = []\<rparr> ([], []) =
     Some ([VHash [(''file_name'', VString ''shapes.proto''),
                   (''file_description'', VString ''Shapes.''),
                   (''file_package'', VString ''shapes''),
                   (''file_messages'', VList []),
                   (''file_enums'', VList [])]], [])"
  using addFile_stores_base_name
    [of "sampleEnv [(''proto/api/shapes.proto'', ''/// Shapes.\<newline>package shapes;\<newline>'')]" False
      "\<lparr>file_name = ''proto/api/shapes.proto'', file_package = ''shapes'',
       file_message_type = [], file_enum_type = []\<rparr>" "[]" "''Shapes.''" "[]" insertionSort "[]"]
  by (simp add: descriptionOfFile_def sampleEnv_def sampleFiles_def fileName_def
      trimmed_def isSpace_def startsWith_def mid_def left_def)

section \<open>Properties of the file header extractor\<close>

lemma slashLoop_stop:
  "\<not> startsWith line ''///'' \<Longrightarrow> slashLoop line stream description = description"
  by (cases stream) simp_all

lemma slashLoop_run:
  assumes "startsWith line ''///''"
    and "\<forall>l \<in> set doc. startsWith (trimmed l) ''///''"
    and "\<not> startsWith (trimmed other) ''///''"
  shows "slashLoop line (doc @ other # rest) description =
           description @
           concat (map (\<lambda>l. stripLineMarker l @ [CHR 0x0A]) (line # map trimmed doc))"
  using assms(1,2)
proof (induction doc arbitrary: line description)
  case Nil
  then show ?case
    using assms(3) by (simp add: slashLoop_stop stripLineMarker_def mid_def)
next
  case (Cons r doc)
  have "slashLoop (trimmed r) (doc @ other # rest)
          (description @ stripLineMarker line @ [CHR 0x0A]) =
        (description @ stripLineMarker line @ [CHR 0x0A]) @
        concat (map (\<lambda>l. stripLineMarker l @ [CHR 0x0A]) (trimmed r # map trimmed doc))"
    using Cons.prems(2) by (intro Cons.IH) simp_all
  then show ?case
    using Cons.prems(1) by (simp add: stripLineMarker_def mid_def)
qed

lemma concat_lines_join:
  "ls \<noteq> [] \<Longrightarrow> concat (map (\<lambda>l. f l @ [c]) ls) = join [c] (map f ls) @ [c]"
proof (induction ls)
  case Nil
  then show ?case by simp
next
  case (Cons l ls)
  then show ?case by (cases ls) simp_all
qed

lemma left_drop_last: "left (x @ [c]) (int (length (x @ [c])) - 1) = x"
  by (simp add: left_def)

lemma headerScan_blanks:
  "\<forall>l \<in> set blanks. trimmed l = [] \<Longrightarrow> headerScan (blanks @ stream) = headerScan stream"
  by (induction blanks) simp_all

lemma startsWith_nonempty: "startsWith line ''///'' \<Longrightarrow> line \<noteq> []"
  by (auto simp: startsWith_def)

lemma headerScan_run:
  assumes "\<forall>l \<in> set blanks. trimmed l = []"
    and "doc \<noteq> []"
    and "\<forall>l \<in> set doc. startsWith (trimmed l) ''///''"
    and "\<not> startsWith (trimmed other) ''///''"
  shows "headerScan (blanks @ doc @ other # rest) =
           Some (join [CHR 0x0A] (map (\<lambda>l. stripLineMarker (trimmed l)) doc))"
proof -
  obtain r doc' where doc: "doc = r # doc'" using assms(2) by (cases doc) auto
  have first: "startsWith (trimmed r) ''///''" and more: "\<forall>l \<in> set doc'. startsWith (trimmed l) ''///''"
    using assms(3) doc by simp_all
  have loop: "slashLoop (trimmed r) (doc' @ other # rest) [] =
      concat (map (\<lambda>l. stripLineMarker l @ [CHR 0x0A]) (map trimmed doc))"
    using slashLoop_run [OF first more assms(4), of rest "[]"] doc by simp
  have "concat (map (\<lambda>l. stripLineMarker l @ [CHR 0x0A]) (map trimmed doc)) =
      join [CHR 0x0A] (map stripLineMarker (map trimmed doc)) @ [CHR 0x0A]"
    using assms(2) by (intro concat_lines_join) simp
  then have d: "slashLoop (trimmed r) (doc' @ other # rest) [] =
      join [CHR 0x0A] (map (\<lambda>l. stripLineMarker (trimmed l)) doc) @ [CHR 0x0A]"
    using loop by (simp add: comp_def)
  have "headerScan (blanks @ doc @ other # rest) = headerScan (doc @ other # rest)"
    using assms(1) by (rule headerScan_blanks)
  also have "\<dots> = Some (left (slashLoop (trimmed r) (doc' @ other # rest) [])
      (int (length (slashLoop (trimmed r) (doc' @ other # rest) [])) - 1))"
    using first startsWith_nonempty [OF first] by (simp add: doc Let_def)
  also have "\<dots> = Some (join [CHR 0x0A] (map (\<lambda>l. stripLineMarker (trimmed l)) doc))"
    unfolding d by (simp only: left_drop_last)
  finally show ?thesis .
qed

text \<open>
  C6, amended: when the first non-blank line of the file starts (after trimming) with
  \<open>///\<close> and the run of such lines is followed by a further line, the description is made
  of the trimmed lines of the run, each without the marker and one following space, joined
  by line feeds; the result is trimmed and then goes through the \<open>@exclude\<close> check.
\<close>

theorem header_line_comments:
  assumes "openFile env (file_name fileDescriptor) = Inr contents"
    and "textLines contents = blanks @ doc @ other # rest"
    and "\<forall>l \<in> set blanks. trimmed l = []"
    and "doc \<noteq> []"
    and "\<forall>l \<in> set doc. startsWith (trimmed l) ''///''"
    and "\<not> startsWith (trimmed other) ''///''"
  shows "descriptionOfFile env noExcl fileDescriptor (error, excluded) =
           (let t = trimmed (join [CHR 0x0A] (map (\<lambda>l. stripLineMarker (trimmed l)) doc))
            in if startsWith t ''@exclude''
               then Some (drop 8 t, error, \<not> noExcl)
               else Some (t, error, False))"
proof -
  have "headerScan (textLines contents) =
      Some (join [CHR 0x0A] (map (\<lambda>l. stripLineMarker (trimmed l)) doc))"
    unfolding assms(2) using assms(3-6) by (rule headerScan_run)
  then show ?thesis
    by (simp add: descriptionOfFile_def assms(1) Let_def mid_def)
qed

lemmas header_eval_defs =
  descriptionOfFile_def sampleEnv_def sampleFiles_def sampleFile_def trimmed_def isSpace_def
  startsWith_def mid_def left_def stripLineMarker_def

theorem header_line_comments_witness:
  "descriptionOfFile
      (sampleEnv [(''demo.proto'', ''/// Line one\<newline>/// Line two\<newline>\<newline>package demo;\<newline>'')])
      False (sampleFile ''demo.proto'') ([], False) =
     Some (''Line one\<newline>Line two'', [], False)"
  using header_line_comments
    [where env = "sampleEnv [(''demo.proto'', ''/// Line one\<newline>/// Line two\<newline>\<newline>package demo;\<newline>'')]"
      and fileDescriptor = "sampleFile ''demo.proto''"
      and contents = "''/// Line one\<newline>/// Line two\<newline>\<newline>package demo;\<newline>''"
      and blanks = "[]" and doc = "[''/// Line one'', ''/// Line two'']" and other = "[]"
      and rest = "[''package demo;'']" and noExcl = False and error = "[]" and excluded = False]
  by (simp add: header_eval_defs)

text \<open>
  The claim as stated keeps what follows the marker as it is. The white space at the end of
  a line of the run is not part of the description.
\<close>

theorem header_lines_are_trimmed:
  "descriptionOfFile
      (sampleEnv [(''demo.proto'', ''/// a  \<newline>/// b\<newline>package demo;\<newline>'')])
      False (sampleFile ''demo.proto'') ([], False) =
     Some (''a\<newline>b'', [], False) \<and>
   join [CHR 0x0A] (map stripLineMarker [''/// a  '', ''/// b'']) = ''a  \<newline>b''"
  by (simp add: header_eval_defs)

text \<open>
  When the run reaches the end of the file, the loop over the run stops in front of its last
  line: the test for the end of the stream comes before the line already read is used.
\<close>

lemma header_last_line_dropped:
  "descriptionOfFile
      (sampleEnv [(''demo.proto'', ''/// Line one\<newline>/// Line two\<newline>'')])
      False (sampleFile ''demo.proto'') ([], False) =
     Some (''Line one'', [], False)"
  by (simp add: header_eval_defs)

section \<open>Properties of the paragraph filter\<close>

lemma isBreakChar_space: "isBreakChar c \<Longrightarrow> isReSpace c"
  by (auto simp: isBreakChar_def isReSpace_def)

lemma matchBreak_Cons:
  "matchBreak (c # s) = (if isBreakChar c then Some 1 else None)"
  by (auto simp: matchBreak_def startsWith_def isBreakChar_def)

lemma startsLine_Cons:
  "startsLine (c # s) = (if isReSpace c then \<not> isBreakChar c \<and> startsLine s else True)"
  by (simp add: startsLine_def)

lemma startsLine_append: "startsLine s \<Longrightarrow> startsLine (s @ t)"
  by (induction s) (auto simp: startsLine_Cons startsLine_def split: if_splits)

lemma matchSpacesBreak_startsLine:
  "startsLine s \<Longrightarrow> matchSpacesBreak s = None"
proof (induction s)
  case Nil
  then show ?case by simp
next
  case (Cons c s)
  show ?case
  proof (cases "isReSpace c")
    case True
    then have "\<not> isBreakChar c" "startsLine s"
      using Cons.prems by (simp_all add: startsLine_Cons)
    then show ?thesis using Cons.IH by (simp add: matchBreak_Cons)
  next
    case False
    then have "\<not> isBreakChar c" using isBreakChar_space by blast
    then show ?thesis using False by (simp add: matchBreak_Cons)
  qed
qed

lemma matchSeparator_plain_break:
  assumes "startsLine s"
  shows "matchSeparator (c # s) = None"
proof -
  have "matchSpacesBreak s = None" using assms by (rule matchSpacesBreak_startsLine)
  moreover have "\<not> startsWith (c # s) [CHR 0x0D, CHR 0x0A]"
    using assms by (cases s) (auto simp: startsWith_def startsLine_Cons isReSpace_def isBreakChar_def)
  ultimately show ?thesis
    by (simp add: matchSeparator_def)
qed

lemma matchSeparator_no_break:
  "\<not> isBreakChar c \<Longrightarrow> matchSeparator (c # s) = None"
  by (auto simp: matchSeparator_def startsWith_def isBreakChar_def)

lemma splitRe_skip:
  "plainBreaks seg \<Longrightarrow> splitRe piece (seg @ t) = splitRe (piece @ seg) t"
proof (induction seg arbitrary: piece)
  case Nil
  then show ?case by simp
next
  case (Cons c seg)
  have "matchSeparator (c # seg @ t) = None"
  proof (cases "isBreakChar c")
    case True
    then have "startsLine seg" using Cons.prems by simp
    then have "startsLine (seg @ t)" by (rule startsLine_append)
    then show ?thesis by (rule matchSeparator_plain_break)
  next
    case False
    then show ?thesis by (rule matchSeparator_no_break)
  qed
  moreover have "plainBreaks seg" using Cons.prems by simp
  ultimately show ?case using Cons.IH [of "piece @ [c]"] by simp
qed

lemma matchSpacesBreak_run:
  assumes "list_all isReSpace w" "isBreakChar b" "startsLine s"
  shows "matchSpacesBreak (w @ b # s) = Some (Suc (length w))"
  using assms(1)
proof (induction w)
  case Nil
  have "matchSpacesBreak s = None"
    using assms(3) by (rule matchSpacesBreak_startsLine)
  then show ?case
    using assms(2) by (simp add: matchBreak_Cons isBreakChar_space)
next
  case (Cons c w)
  then show ?case by simp
qed

lemma isBoundary_shape:
  assumes "isBoundary sep"
  obtains a rest where "sep = a # rest" "isBreakChar a" "rest \<noteq> []" "isBreakChar (last rest)"
    "list_all isReSpace (butlast rest)"
proof -
  obtain a rest where sep: "sep = a # rest" using assms by (cases sep) (auto simp: isBoundary_def)
  have rest: "rest \<noteq> []"
  proof
    assume "rest = []"
    then have "lineBreaks sep \<le> 1" using sep by simp
    then show False using assms by (simp add: isBoundary_def)
  qed
  have "isBreakChar a" using assms sep by (simp add: isBoundary_def)
  moreover have "isBreakChar (last rest)" using assms sep rest by (simp add: isBoundary_def)
  moreover have "list_all isReSpace rest" using assms sep by (simp add: isBoundary_def)
  then have "list_all isReSpace (butlast rest)"
    by (metis append_butlast_last_id list_all_append rest)
  ultimately show thesis using that sep rest by blast
qed

lemma matchSeparator_boundary:
  assumes "isBoundary sep" "startsLine s"
  shows "matchSeparator (sep @ s) = Some (length sep)"
proof -
  obtain a rest where sep: "sep = a # rest" and a: "isBreakChar a" and rest: "rest \<noteq> []"
    and b: "isBreakChar (last rest)" and w: "list_all isReSpace (butlast rest)"
    using assms(1) by (rule isBoundary_shape)
  have r: "rest = butlast rest @ [last rest]" using rest by simp
  have "matchSpacesBreak (butlast rest @ last rest # s) = Some (Suc (length (butlast rest)))"
    using w b assms(2) by (rule matchSpacesBreak_run)
  moreover have "butlast rest @ last rest # s = rest @ s"
    using r by (metis append.assoc append_Cons append_Nil)
  moreover have "Suc (length (butlast rest)) = length rest"
    using rest by simp
  ultimately have m: "matchSpacesBreak (rest @ s) = Some (length rest)" by simp
  show ?thesis
    using a m by (auto simp: sep matchSeparator_def startsWith_def isBreakChar_def)
qed

lemma splitRe_paragraphs:
  assumes "\<forall>(sep, seg) \<in> set rest. isBoundary sep \<and> isParagraph seg"
    and "plainBreaks first"
  shows "splitRe piece (first @ concat (map (\<lambda>(sep, seg). sep @ seg) rest)) =
           (piece @ first) # map snd rest"
  using assms
proof (induction rest arbitrary: piece first)
  case Nil
  then show ?case by (simp add: splitRe_skip [of first piece "[]", simplified])
next
  case (Cons p rest)
  obtain sep seg where p: "p = (sep, seg)" by (cases p)
  have sep: "isBoundary sep" and seg: "isParagraph seg" using Cons.prems(1) p by auto
  let ?tail = "concat (map (\<lambda>(sep, seg). sep @ seg) rest)"
  obtain a r where sepc: "sep = a # r" using sep by (cases sep) (auto simp: isBoundary_def)
  have "startsLine (seg @ ?tail)"
    using seg by (simp add: isParagraph_def startsLine_append)
  then have m: "matchSeparator (sep @ seg @ ?tail) = Some (length sep)"
    using sep by (intro matchSeparator_boundary)
  have "splitRe piece (first @ sep @ seg @ ?tail) = splitRe (piece @ first) (sep @ seg @ ?tail)"
    using Cons.prems(2) by (rule splitRe_skip)
  also have "\<dots> = (piece @ first) # splitRe [] (drop (length sep) (sep @ seg @ ?tail))"
    using m by (simp add: sepc)
  also have "drop (length sep) (sep @ seg @ ?tail) = seg @ ?tail" by simp
  also have "splitRe [] (seg @ ?tail) = ([] @ seg) # map snd rest"
  proof (rule Cons.IH)
    show "\<forall>(sep, seg) \<in> set rest. isBoundary sep \<and> isParagraph seg"
      using Cons.prems(1) by simp
    show "plainBreaks seg"
      using seg by (simp add: isParagraph_def)
  qed
  finally show ?case by (simp add: p)
qed

lemma join_paragraphs:
  "join sep (first # map snd rest) = first @ concat (map (\<lambda>(s, seg). sep @ seg) rest)"
proof (induction rest arbitrary: first)
  case Nil
  then show ?case by simp
next
  case (Cons p rest)
  then show ?case by (cases p) simp
qed

text \<open>
  For a rendered text made of paragraphs with a blank-line boundary between each two,
  \<open>pFilter\<close> gives the paragraphs with \<open></p><p>\<close> between them, inside one \<open><p>\<close> and one
  \<open></p>\<close>; a line feed or a carriage return alone inside a paragraph does not split it.
\<close>

lemma pFilter_paragraphs:
  assumes "subRender text = first @ concat (map (\<lambda>(sep, seg). sep @ seg) rest)"
    and "plainBreaks first"
    and "\<forall>(sep, seg) \<in> set rest. isBoundary sep \<and> isParagraph seg"
  shows "pFilter subRender text =
           ''<p>'' @ first @ concat (map (\<lambda>(sep, seg). ''</p><p>'' @ seg) rest) @ ''</p>''"
proof -
  have "splitRe [] (subRender text) = first # map snd rest"
    using splitRe_paragraphs [OF assms(3) assms(2), of "[]"] assms(1) by simp
  then show ?thesis
    by (simp add: pFilter_def join_paragraphs)
qed

text \<open>The example of the specification.\<close>

lemma pFilter_blank_line:
  "pFilter (\<lambda>text. text) ''Hello\<newline>\<newline>World'' = ''<p>Hello</p><p>World</p>''"
  using pFilter_paragraphs [of "\<lambda>text. text" "''Hello\<newline>\<newline>World''" "''Hello''"
      "[(''\<newline>\<newline>'', ''World'')]"]
  by (simp add: isBoundary_def isParagraph_def startsLine_def isBreakChar_def isReSpace_def)

text \<open>A carriage return with its line feed is no blank-line boundary.\<close>

lemma single_crlf_no_boundary: "\<not> isBoundary [CHR 0x0D, CHR 0x0A]"
  by (simp add: isBoundary_def)

text \<open>
  C7, where the code departs from it: a carriage return with its line feed, which is one
  line break and no blank line, splits the text into two paragraphs. The pattern tries \<open>\r\<close>
  before \<open>\r\n\<close>, so the line feed is taken for the second line break. A line feed alone
  does not split.
\<close>

theorem pFilter_single_crlf_splits:
  "pFilter (\<lambda>text. text) (''Hello'' @ [CHR 0x0D, CHR 0x0A] @ ''World'') =
     ''<p>Hello</p><p>World</p>'' \<and>
   pFilter (\<lambda>text. text) ''Hello\<newline>World'' = ''<p>Hello\<newline>World</p>''"
  by (simp add: pFilter_def matchSeparator_def matchBreak_def startsWith_def isReSpace_def)

section \<open>Properties of the error texts\<close>

lemma startsWith_L: "startsWith r ''L'' = (\<exists>r'. r = CHR ''L'' # r')"
  by (cases r) (auto simp: startsWith_def)

lemma placeMarker_chars:
  assumes "placeMarker s = Some (n, localized, len)"
  shows "0 < len" and "\<forall>x \<in> set (take len s). isMarkerChar x"
  using assms
  by (auto simp: placeMarker_def Let_def startsWith_L isMarkerChar_def eval_nat_numeral
      split: list.splits option.splits if_splits)

lemma replaceArgEscapes_keeps:
  assumes "\<not> isMarkerChar x"
  shows "x \<in> set s \<Longrightarrow> \<forall>y \<in> set (take skip s). isMarkerChar y \<Longrightarrow>
     x \<in> set (replaceArgEscapes m a larg skip s)"
proof (induction m a larg skip s rule: replaceArgEscapes.induct)
  case (1 min_escape a larg skip)
  then show ?case by simp
next
  case (2 min_escape a larg skip c cs)
  have "isMarkerChar c" using "2.prems"(2) by simp
  then have "x \<in> set cs" using "2.prems"(1) assms by auto
  moreover have "\<forall>y \<in> set (take skip cs). isMarkerChar y" using "2.prems"(2) by simp
  ultimately show ?case using "2.IH" by simp
next
  case (3 min_escape a larg c cs)
  show ?case
  proof (cases "placeMarker (c # cs)")
    case None
    then show ?thesis using "3.prems"(1) "3.IH"(1) by auto
  next
    case (Some t)
    obtain n localized len where t: "t = (n, localized, len)" by (cases t)
    note pm = placeMarker_chars [OF Some [unfolded t]]
    show ?thesis
    proof (cases "n = min_escape")
      case True
      have "isMarkerChar c" using pm by (cases len) auto
      then have xin: "x \<in> set cs" using "3.prems"(1) assms by auto
      have "\<forall>y \<in> set (take (len - 1) cs). isMarkerChar y"
        using pm by (cases len) auto
      then have "x \<in> set (replaceArgEscapes min_escape a larg (len - 1) cs)"
        using "3.IH"(2) [OF Some [unfolded t] refl refl True xin] by simp
      then show ?thesis using Some t True by simp
    next
      case False
      then show ?thesis using "3.prems"(1) "3.IH"(3) [OF Some [unfolded t] refl refl False] Some t
        by auto
    qed
  qed
qed

lemma argWith_keeps:
  "\<not> isMarkerChar x \<Longrightarrow> x \<in> set s \<Longrightarrow> x \<in> set (argWith s a larg)"
  by (auto simp: argWith_def replaceArgEscapes_keeps split: list.splits)

lemma arg_file_name: "arg ''%1: %2'' name = name @ '': %2''"
  by (simp add: arg_def argWith_def placeMarker_def digitValue_def startsWith_def)

lemma fileError_nonempty: "fileError name e \<noteq> []"
proof -
  have "\<not> isMarkerChar CHR '':''"
    by (simp add: isMarkerChar_def digitValue_def)
  moreover have "CHR '':'' \<in> set (name @ '': %2'')" by simp
  ultimately have "CHR '':'' \<in> set (argWith (name @ '': %2'') e e)"
    by (rule argWith_keeps)
  moreover have "fileError name e = argWith (name @ '': %2'') e e"
    unfolding fileError_def arg_file_name by (simp only: arg_def)
  ultimately show ?thesis by auto
qed


section \<open>Properties of a run\<close>








text \<open>
  Parsing leaves an error in two ways: it fails, with the usage message, or it succeeds
  with a template that cannot be opened.
\<close>

lemma usage_nonempty: "usage env \<noteq> []"
  by (simp add: usage_def)

lemma parseParameter_failure_error:
  "\<not> fst (parseParameter env generatorContext parameter error) \<Longrightarrow>
   snd (snd (parseParameter env generatorContext parameter error)) = usage env"
  by (auto simp: parseParameter_def Let_def split: if_splits prod.splits)

lemma readTemplate_failure_error:
  assumes "openFile env
      (if name \<in> set (supportedFormats env) then '':/templates/'' @ name @ ''.mustache'' else name) =
      Inl errorString"
  shows "snd (readTemplate env name error) \<noteq> []"
  using assms by (auto simp: readTemplate_def Let_def fileError_nonempty split: if_splits)

lemma parseParameter_template_error:
  assumes "fst (parseParameter env generatorContext parameter error)"
    and "hd (splitAt CHR '','' parameter) \<noteq> ''json''"
    and "openFile env
      (if hd (splitAt CHR '','' parameter) \<in> set (supportedFormats env)
       then '':/templates/'' @ hd (splitAt CHR '','' parameter) @ ''.mustache''
       else hd (splitAt CHR '','' parameter)) = Inl errorString"
  shows "snd (snd (parseParameter env generatorContext parameter error)) \<noteq> []"
proof -
  have ne: "splitAt CHR '','' parameter \<noteq> []" by (rule splitAt_nonempty)
  then have h: "splitAt CHR '','' parameter ! 0 = hd (splitAt CHR '','' parameter)"
    by (simp add: hd_conv_nth)
  have "snd (readTemplate env (hd (splitAt CHR '','' parameter)) error) \<noteq> []"
    using assms(3) by (rule readTemplate_failure_error)
  then show ?thesis
    using assms(1,2) h
    by (auto simp: parseParameter_def Let_def split: if_splits prod.splits)
qed





end
